theory Spec2Isabelle
  imports Complex_Main "HOL-Library.Multiset"
begin

section \<open>Saturation of a single-cell fragments file: the tables\<close>

text \<open>
  The program \<^verbatim>\<open>calculate_saturation_from_fragments.py\<close> works on data frames. A data
  frame is modelled as the list of its rows, a nullable column as an \<open>option\<close>. Floats
  are idealised as reals throughout; integers of the frames are \<open>nat\<close> or \<open>int\<close>.

  \<open>fragments_df\<close> has the columns Chromosome, Start, End, CellBarcode and FragmentCount.
  The row type is polymorphic in the count: after \<open>explode\<close> the count is nullable.
\<close>

record 'c bed_row =
  Chromosome :: string
  Start :: int
  End :: int
  CellBarcode :: string
  FragmentCount :: 'c

type_synonym fragments = "nat bed_row list"

type_synonym fragments_all = "nat option bed_row list"

definition with_count :: "'a bed_row \<Rightarrow> 'c \<Rightarrow> 'c bed_row" where
  "with_count r c =
     \<lparr>Chromosome = Chromosome r, Start = Start r, End = End r,
      CellBarcode = CellBarcode r, FragmentCount = c\<rparr>"

subsection \<open>Group by and count\<close>

text \<open>
  \<open>df.groupby(key).agg(col.count())\<close>: one row per distinct key, with the number of rows
  of the group. The order of the groups is not fixed by the library; the model lists
  them in the order of \<open>remdups\<close>, and no statement below depends on that order.
\<close>

definition groupby_count :: "('r \<Rightarrow> 'k) \<Rightarrow> 'r list \<Rightarrow> ('k \<times> nat) list" where
  "groupby_count key rows =
     map (\<lambda>k. (k, length (filter (\<lambda>r. key r = k) rows))) (remdups (map key rows))"

subsection \<open>The good cell barcodes (lines 133 to 141)\<close>

text \<open>
  \<open>good_cell_barcodes\<close> has the columns CellBarcode and \<open>nbr_frags_per_CBs\<close>; the
  threshold \<open>min_uniq_frag\<close> is a Python int.
\<close>

definition good_cell_barcodes :: "fragments \<Rightarrow> int \<Rightarrow> (string \<times> nat) list" where
  "good_cell_barcodes fragments_df min_uniq_frag =
     filter (\<lambda>(cb, nbr_frags_per_CBs). int nbr_frags_per_CBs > min_uniq_frag)
       (groupby_count CellBarcode fragments_df)"


subsection \<open>One row per read (lines 146 to 150)\<close>

text \<open>
  \<open>repeat_by\<close> turns the count \<open>c\<close> of a row into the list of \<open>c\<close> copies of \<open>c\<close>, and
  \<open>explode\<close> gives each element of the list a row of its own. An empty list explodes
  to one row with a null count.
\<close>

definition explode_row :: "nat bed_row \<Rightarrow> nat option bed_row list" where
  "explode_row r =
     (if FragmentCount r = 0 then [with_count r None]
      else replicate (FragmentCount r) (with_count r (Some (FragmentCount r))))"

definition fragments_all_df :: "fragments \<Rightarrow> fragments_all" where
  "fragments_all_df fragments_df = concat (map explode_row fragments_df)"

subsection \<open>Sampling (line 160)\<close>

text \<open>
  \<open>np.arange(0.1, 1.1, 0.1)\<close> has \<open>ceil((1.1 - 0.1) / 0.1) = 10\<close> elements
  \<open>0.1 + i * 0.1\<close>. The row label of a fraction is \<open>"chunk " + str(int(fraction * 10))\<close>;
  the model keeps the number and leaves the prefix out.
\<close>

definition fractions :: "real list" where
  "fractions = map (\<lambda>i. 1 / 10 + real i * (1 / 10)) [0..<10]"

definition chunk :: "real \<Rightarrow> nat" where
  "chunk fraction = nat \<lfloor>fraction * 10\<rfloor>"

text \<open>
  \<open>sample(frac=fraction)\<close> draws \<open>int(height * fraction)\<close> rows without replacement. The
  random source is a parameter of the model: \<open>rng fraction\<close> is the list of the row
  indices drawn for that fraction, and \<open>is_draw\<close> says what the library guarantees of it.
  The product is taken in the reals; at the fraction 1.0 it is the height in floating
  point as well.
\<close>

definition sample_n :: "nat \<Rightarrow> real \<Rightarrow> nat" where
  "sample_n height fraction = nat \<lfloor>real height * fraction\<rfloor>"

definition is_draw :: "nat \<Rightarrow> real \<Rightarrow> nat list \<Rightarrow> bool" where
  "is_draw height fraction idx \<longleftrightarrow>
     length idx = sample_n height fraction \<and> distinct idx \<and> list_all (\<lambda>i. i < height) idx"

definition sample_rows :: "'a list \<Rightarrow> nat list \<Rightarrow> 'a list" where
  "sample_rows df idx = map (\<lambda>i. df ! i) idx"

subsection \<open>The join with the good barcodes (lines 159 to 164)\<close>

text \<open>
  \<open>good_cell_barcodes.join(sample, left_on="CellBarcode", right_on="CellBarcode",
  how="left")\<close>: every row of the left frame is kept; it is paired with each row of the
  sample that has its barcode, and with one row of nulls when there is none.
\<close>

record joined_row =
  j_CellBarcode :: string
  j_nbr_frags_per_CBs :: nat
  j_Chromosome :: "string option"
  j_Start :: "int option"
  j_End :: "int option"
  j_FragmentCount :: "nat option"

definition matched_row :: "string \<Rightarrow> nat \<Rightarrow> nat option bed_row \<Rightarrow> joined_row" where
  "matched_row cb n r =
     \<lparr>j_CellBarcode = cb, j_nbr_frags_per_CBs = n, j_Chromosome = Some (Chromosome r),
      j_Start = Some (Start r), j_End = Some (End r), j_FragmentCount = FragmentCount r\<rparr>"

definition null_row :: "string \<Rightarrow> nat \<Rightarrow> joined_row" where
  "null_row cb n =
     \<lparr>j_CellBarcode = cb, j_nbr_frags_per_CBs = n, j_Chromosome = None,
      j_Start = None, j_End = None, j_FragmentCount = None\<rparr>"

definition join_one :: "fragments_all \<Rightarrow> string \<times> nat \<Rightarrow> joined_row list" where
  "join_one right l =
     (let ms = filter (\<lambda>r. CellBarcode r = fst l) right
      in if ms = [] then [null_row (fst l) (snd l)]
         else map (matched_row (fst l) (snd l)) ms)"

definition left_join :: "(string \<times> nat) list \<Rightarrow> fragments_all \<Rightarrow> joined_row list" where
  "left_join left right = concat (map (join_one right) left)"

subsection \<open>The statistics of one fraction (lines 167 to 193)\<close>

record stats_row =
  total_frag_count :: nat
  mean_frag_per_bc :: "real option"
  median_uniq_frag_per_bc :: "real option"
  cell_barcode_count :: nat

text \<open>
  The mean and the median of an empty column are null (\<open>None\<close>), which the pandas frame
  shows as NaN. The median of an even number of values is the mean of the middle two.
  \<open>count\<close> is the number of rows of a group, the rows of nulls included.
\<close>

definition mean_col :: "nat list \<Rightarrow> real option" where
  "mean_col xs = (if xs = [] then None else Some (real (sum_list xs) / real (length xs)))"

definition median_col :: "nat list \<Rightarrow> real option" where
  "median_col xs =
     (if xs = [] then None
      else let s = sort xs; n = length s
           in Some (if odd n then real (s ! (n div 2))
                    else (real (s ! (n div 2 - 1)) + real (s ! (n div 2))) / 2))"

definition mean_frags :: "joined_row list \<Rightarrow> real option" where
  "mean_frags df = mean_col (map snd (groupby_count j_CellBarcode df))"

definition median_uniq_frags :: "joined_row list \<Rightarrow> real option" where
  "median_uniq_frags df =
     median_col (map snd (groupby_count fst
       (remdups (map (\<lambda>r. (j_CellBarcode r, j_Chromosome r, j_Start r, j_End r)) df))))"

definition chunk_stats :: "(string \<times> nat) list \<Rightarrow> fragments_all \<Rightarrow> nat list \<Rightarrow> stats_row" where
  "chunk_stats good all_df idx =
     (let fragments_sampled_for_good_bc_df = left_join good (sample_rows all_df idx)
      in \<lparr>total_frag_count = length fragments_sampled_for_good_bc_df,
          mean_frag_per_bc = mean_frags fragments_sampled_for_good_bc_df,
          median_uniq_frag_per_bc = median_uniq_frags fragments_sampled_for_good_bc_df,
          cell_barcode_count = length good\<rparr>)"

subsection \<open>The statistics table (lines 115 to 200)\<close>

text \<open>
  \<open>stats_bucket\<close> starts with the row \<open>chunk 0\<close>, zero in every column, and gets one
  row per fraction. The table is the list of its labelled rows in insertion order.
\<close>

definition chunk0 :: stats_row where
  "chunk0 = \<lparr>total_frag_count = 0, mean_frag_per_bc = Some 0,
            median_uniq_frag_per_bc = Some 0, cell_barcode_count = 0\<rparr>"

definition sub_sample_fragments ::
  "(real \<Rightarrow> nat list) \<Rightarrow> fragments \<Rightarrow> int \<Rightarrow> (nat \<times> stats_row) list" where
  "sub_sample_fragments rng fragments_df min_uniq_frag =
     (let good = good_cell_barcodes fragments_df min_uniq_frag;
          all_df = fragments_all_df fragments_df
      in (0, chunk0) #
         map (\<lambda>fraction. (chunk fraction, chunk_stats good all_df (rng fraction))) fractions)"

section \<open>The saturation curve\<close>

subsection \<open>The model function (lines 103 to 111)\<close>

text \<open>
  \<open>MM\<close> is always called with a numpy array for \<open>x\<close> (\<open>x_data\<close> or \<open>x_fit\<close>) and two
  floats. With positive parameters the arithmetic is elementwise and the result is an
  array; otherwise the result is the float \<open>1e10\<close>, not an array. An element with
  \<open>Km + x = 0\<close> would be an IEEE infinity or NaN; that needs a negative \<open>x\<close> when \<open>Km\<close> is
  positive, which no grid of the program has.
\<close>

datatype ndval = Scalar real | Array "real list"

definition MM :: "real list \<Rightarrow> real \<Rightarrow> real \<Rightarrow> ndval" where
  "MM x Vmax Km =
     (if Vmax > 0 \<and> Km > 0 then Array (map (\<lambda>v. (Vmax * v) / (Km + v)) x)
      else Scalar (10 ^ 10))"

subsection \<open>Python and numpy primitives\<close>

datatype py_error = TypeError | IndexError | ValueError | RuntimeError

text \<open>\<open>v = m; f v\<close> where \<open>m\<close> may raise.\<close>

definition and_then :: "py_error + 'a \<Rightarrow> ('a \<Rightarrow> py_error + 'b) \<Rightarrow> py_error + 'b" where
  "and_then m f = (case m of Inl e \<Rightarrow> Inl e | Inr v \<Rightarrow> f v)"

text \<open>\<open>max(xs)\<close> and \<open>np.max(xs)\<close>: a ValueError on an empty sequence.\<close>

definition py_max :: "real list \<Rightarrow> py_error + real" where
  "py_max xs = (case xs of [] \<Rightarrow> Inl ValueError | x # r \<Rightarrow> Inr (fold max r x))"

text \<open>\<open>int(r)\<close> truncates towards zero.\<close>

definition py_int :: "real \<Rightarrow> int" where
  "py_int r = (if 0 \<le> r then \<lfloor>r\<rfloor> else \<lceil>r\<rceil>)"

text \<open>\<open>np.where(y_fit >= y_val)[0][0]\<close>: the first index where it holds, an IndexError
  when it holds nowhere.\<close>

fun first_index :: "('a \<Rightarrow> bool) \<Rightarrow> 'a list \<Rightarrow> nat option" where
  "first_index P [] = None"
| "first_index P (x # xs) = (if P x then Some 0 else map_option Suc (first_index P xs))"

definition where_first :: "real list \<Rightarrow> real \<Rightarrow> py_error + nat" where
  "where_first y_fit y_val =
     (case first_index (\<lambda>v. v \<ge> y_val) y_fit of None \<Rightarrow> Inl IndexError | Some i \<Rightarrow> Inr i)"

definition py_nth :: "'a list \<Rightarrow> nat \<Rightarrow> py_error + 'a" where
  "py_nth xs i = (if i < length xs then Inr (xs ! i) else Inl IndexError)"

text \<open>\<open>np.linspace(start, stop, num)\<close>: \<open>num\<close> points, the ends included.\<close>

definition linspace :: "real \<Rightarrow> real \<Rightarrow> nat \<Rightarrow> real list" where
  "linspace start stop num =
     (if num = 1 then [start]
      else map (\<lambda>i. start + real i * ((stop - start) / real (num - 1))) [0..<num])"

subsection \<open>Cutting the curve at 95 percent of Vmax (lines 219 to 225)\<close>

definition subset_fit ::
  "real \<Rightarrow> real list \<Rightarrow> real list \<Rightarrow> py_error + (real list \<times> real list)" where
  "subset_fit Vmax x_fit y_fit =
     (let y_val = Vmax * (95 / 100)
      in and_then (py_max y_fit) (\<lambda>m.
           if y_val < m
           then and_then (where_first y_fit y_val) (\<lambda>x_coef.
                  Inr (take x_coef x_fit, take x_coef y_fit))
           else Inr (x_fit, y_fit)))"

subsection \<open>The marker of one value (lines 231 to 233 and 251 to 253)\<close>

definition marker :: "real list \<Rightarrow> real list \<Rightarrow> real \<Rightarrow> py_error + (real \<times> real)" where
  "marker x_fit y_fit y_val =
     and_then (where_first y_fit y_val) (\<lambda>x_idx.
     and_then (py_nth x_fit x_idx) (\<lambda>x_coef.
     and_then (py_nth y_fit x_idx) (\<lambda>y_coef. Inr (x_coef, y_coef))))"

subsection \<open>The requested percentages (lines 246 to 266)\<close>

text \<open>
  The loop draws a marker for each percentage it resolves; the model returns the list of
  \<open>(perc, x_coef, y_coef)\<close> in the order of the loop.
\<close>

fun mark_percentages ::
  "real \<Rightarrow> real list \<Rightarrow> real list \<Rightarrow> real list \<Rightarrow> py_error + (real \<times> real \<times> real) list" where
  "mark_percentages Vmax x_fit y_fit [] = Inr []"
| "mark_percentages Vmax x_fit y_fit (perc # percentages) =
     (let y_val = Vmax * perc
      in and_then (py_max y_fit) (\<lambda>m.
           if m > y_val
           then and_then (marker x_fit y_fit y_val) (\<lambda>(x_coef, y_coef).
                and_then (mark_percentages Vmax x_fit y_fit percentages) (\<lambda>rest.
                  Inr ((perc, x_coef, y_coef) # rest)))
           else mark_percentages Vmax x_fit y_fit percentages))"

subsection \<open>The curve that is drawn (lines 216 to 225)\<close>

text \<open>
  The fit space is the grid of 500 points from 0 to \<open>int(np.max(x_data) * 100)\<close>.
  When a parameter is not positive, \<open>y_fit\<close> is a float and \<open>max(y_fit)\<close> raises a
  TypeError.
\<close>

definition expand_fit_space :: "real \<Rightarrow> real list" where
  "expand_fit_space x_max = linspace 0 (real_of_int (py_int (x_max * 100))) 500"

definition fitted_curve ::
  "real \<Rightarrow> real \<Rightarrow> real list \<Rightarrow> py_error + (real list \<times> real list)" where
  "fitted_curve Vmax Km x_data =
     and_then (py_max x_data) (\<lambda>x_max.
       let x_fit = expand_fit_space x_max
       in case MM x_fit Vmax Km of
            Scalar _ \<Rightarrow> Inl TypeError
          | Array y_fit \<Rightarrow> subset_fit Vmax x_fit y_fit)"

text \<open>
  Two names for the statements below: the grid \<open>x_fit\<close> of line 217 and the curve
  \<open>y_fit\<close> of line 218 for positive parameters, before the cut of lines 222 to 225.
\<close>

definition dense_grid :: "real list \<Rightarrow> real list" where
  "dense_grid x_data = expand_fit_space (Max (set x_data))"

definition dense_curve :: "real \<Rightarrow> real \<Rightarrow> real list \<Rightarrow> real list" where
  "dense_curve Vmax Km x_data = map (\<lambda>v. Vmax * v / (Km + v)) (dense_grid x_data)"

subsection \<open>fit_MM (lines 204 to 271)\<close>

text \<open>
  \<open>curve_fit\<close> is the solver of scipy: \<open>best_fit\<close> is what it returned for the data,
  the pair \<open>(Vmax, Km)\<close> or the error it raised. The result of the model is what the
  function draws: the curve it plots, the marker of the current saturation and the
  markers of the percentages. The text labels and the file written are left out; the
  labels read \<open>x_fit[-1]\<close> only after a lookup in \<open>y_fit\<close>, of the same length, has
  succeeded.
\<close>

record fit_plot =
  curve_x :: "real list"
  curve_y :: "real list"
  current :: "real \<times> real"
  marks :: "(real \<times> real \<times> real) list"

definition fit_MM ::
  "py_error + (real \<times> real) \<Rightarrow> real list \<Rightarrow> real list \<Rightarrow> real list \<Rightarrow> py_error + fit_plot" where
  "fit_MM best_fit x_data y_data percentages =
     and_then best_fit (\<lambda>(Vmax, Km).
     and_then (fitted_curve Vmax Km x_data) (\<lambda>(x_fit, y_fit).
     and_then (py_max y_data) (\<lambda>y_max.
     and_then (marker x_fit y_fit y_max) (\<lambda>cur.
     and_then (mark_percentages Vmax x_fit y_fit percentages) (\<lambda>ms.
       Inr \<lparr>curve_x = x_fit, curve_y = y_fit, current = cur, marks = ms\<rparr>)))))"

section \<open>Example inputs\<close>



text \<open>
  A population of three records and six reads, two records of barcode A and one of
  barcode B, and a random source for it: \<open>draws fraction\<close> has \<open>int(6 * fraction)\<close>
  distinct row indices below 6.
\<close>

definition small :: fragments where
  "small =
     [\<lparr>Chromosome = ''chr1'', Start = 100, End = 150, CellBarcode = ''A'', FragmentCount = 2\<rparr>,
      \<lparr>Chromosome = ''chr1'', Start = 200, End = 260, CellBarcode = ''A'', FragmentCount = 1\<rparr>,
      \<lparr>Chromosome = ''chr2'', Start = 5, End = 40, CellBarcode = ''B'', FragmentCount = 3\<rparr>]"

definition draws :: "real \<Rightarrow> nat list" where
  "draws fraction =
     (if fraction = 1 then [5, 4, 3, 2, 1, 0] else take (sample_n 6 fraction) [3, 0, 5, 1, 4, 2])"

section \<open>The barcode qualifier\<close>

lemma groupby_count_set:
  "set (groupby_count key rows) =
     (\<lambda>k. (k, length (filter (\<lambda>r. key r = k) rows))) ` key ` set rows"
  by (simp add: groupby_count_def)

lemma groupby_count_distinct: "distinct (map fst (groupby_count key rows))"
  by (simp add: groupby_count_def comp_def)

lemma good_barcodes_set:
  "fst ` set (good_cell_barcodes df t) =
     {cb \<in> CellBarcode ` set df. t < int (length (filter (\<lambda>r. CellBarcode r = cb) df))}"
  by (force simp: good_cell_barcodes_def groupby_count_set image_iff)

lemma good_barcodes_distinct: "distinct (map fst (good_cell_barcodes df t))"
  unfolding good_cell_barcodes_def
  by (rule distinct_map_filter) (rule groupby_count_distinct)










section \<open>The statistics table\<close>

lemma fractions_eq:
  "fractions = [1/10, 2/10, 3/10, 4/10, 5/10, 6/10, 7/10, 8/10, 9/10, 1]"
  by (simp add: fractions_def upt_rec)





lemma small_good: "good_cell_barcodes small 1 = [(''A'', 2)]"
  by (simp add: good_cell_barcodes_def groupby_count_def small_def)

lemma small_none_good: "good_cell_barcodes small 200 = []"
  by (simp add: good_cell_barcodes_def groupby_count_def small_def)

lemma small_all_length: "length (fragments_all_df small) = 6"
  by (simp add: fragments_all_df_def explode_row_def small_def)

lemma draws_tenth: "draws (1 / 10) = []"
  by (simp add: draws_def sample_n_def)

lemma draws_full: "is_draw 6 1 (draws 1)"
  by (simp add: is_draw_def draws_def sample_n_def)

lemma draws_tenth_ok: "is_draw 6 (1 / 10) (draws (1 / 10))"
  by (simp add: is_draw_def draws_def sample_n_def)

lemma second_row:
  "snd (sub_sample_fragments rng df m ! 1) =
     chunk_stats (good_cell_barcodes df m) (fragments_all_df df) (rng (1 / 10))"
  by (simp add: sub_sample_fragments_def Let_def fractions_eq)

lemma last_row:
  "snd (last (sub_sample_fragments rng df m)) =
     chunk_stats (good_cell_barcodes df m) (fragments_all_df df) (rng 1)"
  by (simp add: sub_sample_fragments_def Let_def fractions_eq)




subsection \<open>Degenerate populations\<close>

lemma left_join_Nil: "left_join [] s = []"
  by (simp add: left_join_def)

lemma chunk_stats_Nil:
  "chunk_stats [] all_df idx =
     \<lparr>total_frag_count = 0, mean_frag_per_bc = None,
      median_uniq_frag_per_bc = None, cell_barcode_count = 0\<rparr>"
  by (simp add: chunk_stats_def left_join_Nil mean_frags_def median_uniq_frags_def
      groupby_count_def mean_col_def median_col_def)

lemma good_Nil: "good_cell_barcodes [] m = []"
  by (simp add: good_cell_barcodes_def groupby_count_def)

text \<open>
  C6. No statement of \<open>sub_sample_fragments\<close> raises, and each frame operation is
  defined on an empty frame, so the model has no error branch. For an empty population,
  and for any population without a good barcode, the table is still produced: the row
  \<open>chunk 0\<close> and one row per fraction, with the total and the barcode count 0 and the
  mean and the median null (NaN in the table).
\<close>

theorem degenerate_table_rows:
  assumes "df = [] \<or> good_cell_barcodes df m = []"
  shows "sub_sample_fragments rng df m =
     (0, chunk0) #
     map (\<lambda>fraction. (chunk fraction,
            \<lparr>total_frag_count = 0, mean_frag_per_bc = None,
             median_uniq_frag_per_bc = None, cell_barcode_count = 0\<rparr>)) fractions"
proof -
  from assms have "good_cell_barcodes df m = []"
    using good_Nil[of m] by auto
  then show ?thesis
    by (simp add: sub_sample_fragments_def chunk_stats_Nil)
qed

theorem degenerate_table_rows_witness:
  "map snd (sub_sample_fragments (\<lambda>fraction. []) [] 200) =
     chunk0 # replicate 10 \<lparr>total_frag_count = 0, mean_frag_per_bc = None,
             median_uniq_frag_per_bc = None, cell_barcode_count = 0\<rparr>
   \<and> map snd (sub_sample_fragments draws small 200) =
     chunk0 # replicate 10 \<lparr>total_frag_count = 0, mean_frag_per_bc = None,
             median_uniq_frag_per_bc = None, cell_barcode_count = 0\<rparr>"
  using degenerate_table_rows[of "[]" 200 "\<lambda>fraction. []"]
    degenerate_table_rows[of small 200 draws]
  by (simp add: small_none_good fractions_eq eval_nat_numeral)

section \<open>The join with the good barcodes\<close>

text \<open>
  C2. The join is a left join from the good barcodes, not an inner join: a good barcode
  without a sampled read still gets a row, filled with nulls. On the population \<open>small\<close>
  with the threshold 1, the fraction 0.1 draws \<open>int(6 * 0.1) = 0\<close> reads; the joined
  frame has one row all the same, for barcode A, and \<open>total_frag_count\<close> of the fraction
  is 1.
\<close>

theorem left_join_pads_good_barcodes:
  "is_draw (length (fragments_all_df small)) (1 / 10) (draws (1 / 10))
   \<and> sample_rows (fragments_all_df small) (draws (1 / 10)) = []
   \<and> left_join (good_cell_barcodes small 1)
        (sample_rows (fragments_all_df small) (draws (1 / 10))) = [null_row ''A'' 2]
   \<and> total_frag_count (snd (sub_sample_fragments draws small 1 ! 1)) = 1"
proof -
  have a: "is_draw (length (fragments_all_df small)) (1 / 10) (draws (1 / 10))"
    unfolding small_all_length by (rule draws_tenth_ok)
  have b: "sample_rows (fragments_all_df small) (draws (1 / 10)) = []"
    by (simp add: draws_tenth sample_rows_def)
  have c: "left_join (good_cell_barcodes small 1) [] = [null_row ''A'' 2]"
    by (simp add: small_good left_join_def join_one_def)
  have d: "total_frag_count
      (chunk_stats (good_cell_barcodes small 1) (fragments_all_df small) (draws (1 / 10))) = 1"
    unfolding chunk_stats_def b c by (simp add: Let_def)
  show ?thesis
    unfolding second_row b using a c d by simp
qed

section \<open>The full fraction\<close>

lemma length_left_join:
  "length (left_join good s) =
     sum_list (map (\<lambda>l. max 1 (length (filter (\<lambda>r. CellBarcode r = fst l) s))) good)"
  by (induction good) (auto simp: left_join_def join_one_def Let_def max_def Suc_le_eq)

lemma full_draw_set:
  assumes "distinct idx" "list_all (\<lambda>i. i < h) idx" "length idx = h"
  shows "set idx = {..<h}"
proof (rule card_subset_eq)
  show "finite {..<h}" by simp
  show "set idx \<subseteq> {..<h}" using assms(2) by (auto simp: list_all_iff)
  show "card (set idx) = card {..<h}" using assms(1,3) by (simp add: distinct_card)
qed

lemma full_draw_filter:
  assumes "distinct idx" "list_all (\<lambda>i. i < length df) idx" "length idx = length df"
  shows "length (filter P (sample_rows df idx)) = length (filter P df)"
proof -
  have s: "set idx = set [0..<length df]"
    using full_draw_set[OF assms] by (simp add: lessThan_atLeast0)
  have "length (filter P (sample_rows df idx)) = length (filter (\<lambda>i. P (df ! i)) idx)"
    by (simp add: sample_rows_def filter_map comp_def)
  also have "\<dots> = card ({i. P (df ! i)} \<inter> set idx)"
    using assms(1) by (simp add: distinct_length_filter)
  also have "\<dots> = length (filter (\<lambda>i. P (df ! i)) [0..<length df])"
    unfolding s by (simp add: distinct_length_filter)
  also have "\<dots> = length (filter P (map (\<lambda>i. df ! i) [0..<length df]))"
    by (simp add: filter_map comp_def)
  also have "\<dots> = length (filter P df)"
    by (simp add: map_nth)
  finally show ?thesis .
qed

lemma full_draw_mset:
  assumes "distinct idx" "list_all (\<lambda>i. i < length df) idx" "length idx = length df"
  shows "mset (sample_rows df idx) = mset df"
proof -
  have "set idx = set [0..<length df]"
    using full_draw_set[OF assms] by (simp add: lessThan_atLeast0)
  then have m: "mset idx = mset [0..<length df]"
    using set_eq_iff_mset_eq_distinct[OF assms(1) distinct_upt, of 0 "length df"] by blast
  have "mset (sample_rows df idx) = image_mset (\<lambda>i. df ! i) (mset idx)"
    by (simp add: sample_rows_def)
  also have "\<dots> = image_mset (\<lambda>i. df ! i) (mset [0..<length df])"
    by (simp only: m)
  also have "\<dots> = mset (map (\<lambda>i. df ! i) [0..<length df])"
    by simp
  also have "\<dots> = mset df"
    by (simp only: map_nth)
  finally show ?thesis .
qed

lemma join_one_mset:
  assumes "mset s = mset s'"
  shows "mset (join_one s l) = mset (join_one s' l)"
proof -
  let ?f = "\<lambda>t. filter (\<lambda>r. CellBarcode r = fst l) t"
  have f: "mset (?f s) = mset (?f s')"
    by (simp only: mset_filter assms)
  then have "length (?f s) = length (?f s')"
    by (rule mset_eq_length)
  then have e: "?f s = [] \<longleftrightarrow> ?f s' = []"
    by (simp only: length_0_conv[symmetric])
  have "mset (map (matched_row (fst l) (snd l)) (?f s)) =
      mset (map (matched_row (fst l) (snd l)) (?f s'))"
    by (simp only: mset_map f)
  with e show ?thesis
    unfolding join_one_def Let_def by (cases "?f s' = []") simp_all
qed

lemma left_join_Cons: "left_join (l # good) s = join_one s l @ left_join good s"
  by (simp add: left_join_def)

lemma left_join_mset:
  assumes "mset s = mset s'"
  shows "mset (left_join good s) = mset (left_join good s')"
proof (induction good)
  case Nil
  show ?case by (simp add: left_join_def)
next
  case (Cons l good)
  show ?case
    by (simp only: left_join_Cons mset_append Cons.IH join_one_mset[OF assms, of l])
qed

lemma explode_filter_length:
  "length (filter (\<lambda>r. CellBarcode r = cb) (fragments_all_df df)) =
     sum_list (map (\<lambda>r. max 1 (FragmentCount r)) (filter (\<lambda>r. CellBarcode r = cb) df))"
  by (induction df) (auto simp: fragments_all_df_def explode_row_def with_count_def)

lemma sum_filter_split:
  "k \<notin> set ks \<Longrightarrow>
   sum_list (map f (filter (\<lambda>r. key r = k \<or> key r \<in> set ks) rows)) =
     sum_list (map f (filter (\<lambda>r. key r = k) rows)) +
     sum_list (map f (filter (\<lambda>r. key r \<in> set ks) rows))"
  for f :: "'r \<Rightarrow> nat"
  by (induction rows) auto

lemma sum_by_keys:
  "distinct ks \<Longrightarrow>
   sum_list (map (\<lambda>k. sum_list (map f (filter (\<lambda>r. key r = k) rows))) ks) =
     sum_list (map f (filter (\<lambda>r. key r \<in> set ks) rows))"
  for f :: "'r \<Rightarrow> nat"
  by (induction ks) (auto simp: sum_filter_split)

lemma full_fraction_rows:
  assumes draw: "is_draw (length (fragments_all_df df)) 1 idx"
    and pos: "\<forall>r\<in>set df. 1 \<le> FragmentCount r"
  shows "length (left_join (good_cell_barcodes df m) (sample_rows (fragments_all_df df) idx)) =
     sum_list (map FragmentCount
       (filter (\<lambda>r. CellBarcode r \<in> fst ` set (good_cell_barcodes df m)) df))"
proof -
  let ?good = "good_cell_barcodes df m"
  let ?all = "fragments_all_df df"
  let ?reads = "\<lambda>cb. sum_list (map FragmentCount (filter (\<lambda>r. CellBarcode r = cb) df))"
  have d: "distinct idx" "list_all (\<lambda>i. i < length ?all) idx" "length idx = length ?all"
    using draw by (simp_all add: is_draw_def sample_n_def)
  have m1: "map (\<lambda>r. max 1 (FragmentCount r)) (filter Q df) = map FragmentCount (filter Q df)" for Q
    by (rule map_cong) (use pos in \<open>auto simp: max_def\<close>)
  have per: "length (filter (\<lambda>r. CellBarcode r = cb) (sample_rows ?all idx)) = ?reads cb" for cb
    by (simp add: full_draw_filter[OF d] explode_filter_length m1[unfolded One_nat_def])
  have one: "max 1 (?reads (fst l)) = ?reads (fst l)" if "l \<in> set ?good" for l
  proof -
    from that have "fst l \<in> CellBarcode ` set df"
      using good_barcodes_set[of df m] by (metis (no_types, lifting) image_eqI mem_Collect_eq)
    then obtain r where r: "r \<in> set df" "CellBarcode r = fst l" by auto
    then have "FragmentCount r \<in> set (map FragmentCount (filter (\<lambda>r. CellBarcode r = fst l) df))"
      by simp
    then have "FragmentCount r \<le> ?reads (fst l)"
      by (simp add: member_le_sum_list)
    moreover have "1 \<le> FragmentCount r" using pos r(1) by blast
    ultimately show ?thesis by simp
  qed
  have "length (left_join ?good (sample_rows ?all idx)) =
          sum_list (map (\<lambda>l. max 1 (?reads (fst l))) ?good)"
    by (simp add: length_left_join per)
  also have "\<dots> = sum_list (map (\<lambda>l. ?reads (fst l)) ?good)"
    using one by (intro arg_cong[where f = sum_list] map_cong) auto
  also have "\<dots> = sum_list (map ?reads (map fst ?good))"
    by (simp add: comp_def)
  also have "\<dots> = sum_list (map FragmentCount
       (filter (\<lambda>r. CellBarcode r \<in> set (map fst ?good)) df))"
    by (rule sum_by_keys[OF good_barcodes_distinct])
  finally show ?thesis by simp
qed

text \<open>
  C3. At the fraction 1.0 the sample has every row of the exploded frame, in some order,
  whatever the random source draws. When every record has a count of at least one, as
  the data model requires, \<open>total_frag_count\<close> of the last row is the sum of the counts
  of the records with a good barcode, and the joined frame is, as a bag of rows, the
  join of the good barcodes with the whole exploded frame.
\<close>

theorem full_fraction_total:
  assumes "is_draw (length (fragments_all_df df)) 1 (rng 1)"
    and "\<forall>r\<in>set df. 1 \<le> FragmentCount r"
  shows "total_frag_count (snd (last (sub_sample_fragments rng df m))) =
       sum_list (map FragmentCount
         (filter (\<lambda>r. CellBarcode r \<in> fst ` set (good_cell_barcodes df m)) df))
     \<and> mset (left_join (good_cell_barcodes df m) (sample_rows (fragments_all_df df) (rng 1))) =
       mset (left_join (good_cell_barcodes df m) (fragments_all_df df))"
proof -
  have "mset (sample_rows (fragments_all_df df) (rng 1)) = mset (fragments_all_df df)"
    using assms(1) by (intro full_draw_mset) (simp_all add: is_draw_def sample_n_def)
  then have "mset (left_join (good_cell_barcodes df m) (sample_rows (fragments_all_df df) (rng 1))) =
       mset (left_join (good_cell_barcodes df m) (fragments_all_df df))"
    by (rule left_join_mset)
  then show ?thesis
    using full_fraction_rows[OF assms] by (simp add: last_row chunk_stats_def Let_def)
qed

theorem full_fraction_total_witness:
  "total_frag_count (snd (last (sub_sample_fragments draws small 1))) = 3"
proof -
  have d: "is_draw (length (fragments_all_df small)) 1 (draws 1)"
    by (simp add: small_all_length draws_full)
  have p: "\<forall>r\<in>set small. 1 \<le> FragmentCount r"
    by (simp add: small_def)
  have "sum_list (map FragmentCount
         (filter (\<lambda>r. CellBarcode r \<in> fst ` set (good_cell_barcodes small 1)) small)) = 3"
    by (simp add: small_good) (simp add: small_def)
  then show ?thesis
    using full_fraction_total[of small draws 1, OF d p] by simp
qed

section \<open>The model function\<close>

text \<open>
  C7. With both parameters positive \<open>MM\<close> is \<open>Vmax * x / (Km + x)\<close> at every element of
  \<open>x\<close>; as soon as one parameter is zero or negative it is the float \<open>1e10\<close>, whatever
  \<open>x\<close> is.
\<close>

theorem MM_model:
  "(0 < Vmax \<and> 0 < Km \<longrightarrow> MM x Vmax Km = Array (map (\<lambda>v. Vmax * v / (Km + v)) x))
   \<and> (Vmax \<le> 0 \<or> Km \<le> 0 \<longrightarrow> MM x Vmax Km = Scalar 10000000000)"
  by (auto simp: MM_def)

theorem MM_model_witness:
  "MM [0, 500, 1500] 1000 500 = Array [0, 500, 750]
   \<and> MM [0, 500, 1500] 0 500 = Scalar 10000000000
   \<and> MM [0, 500, 1500] 1000 (- 2) = Scalar 10000000000"
  using MM_model[of 1000 500 "[0, 500, 1500]"] MM_model[of 0 500 "[0, 500, 1500]"]
    MM_model[of 1000 "- 2" "[0, 500, 1500]"]
  by simp

section \<open>The curve and its markers\<close>

subsection \<open>The primitives\<close>

lemma py_max_Max: "xs \<noteq> [] \<Longrightarrow> py_max xs = Inr (Max (set xs))"
proof -
  assume "xs \<noteq> []"
  then obtain x r where xs: "xs = x # r" by (cases xs) auto
  have "fold max r x = Max (set (x # r))" by (rule Max.set_eq_fold[symmetric])
  then show ?thesis by (simp add: py_max_def xs)
qed

lemma py_max_Nil: "py_max [] = Inl ValueError"
  by (simp add: py_max_def)

lemma first_index_None: "first_index P xs = None \<longleftrightarrow> (\<forall>x\<in>set xs. \<not> P x)"
  by (induction xs) auto

lemma first_index_Some:
  "first_index P xs = Some i \<Longrightarrow> i < length xs \<and> P (xs ! i) \<and> (\<forall>j<i. \<not> P (xs ! j))"
proof (induction xs arbitrary: i)
  case Nil
  then show ?case by simp
next
  case (Cons x xs)
  show ?case
  proof (cases "P x")
    case True
    with Cons.prems show ?thesis by simp
  next
    case False
    with Cons.prems obtain k where k: "first_index P xs = Some k" "i = Suc k"
      by auto
    from Cons.IH[OF k(1)] False k(2) show ?thesis
      by (auto simp: nth_Cons split: nat.splits)
  qed
qed

lemma first_index_eqI:
  "i < length xs \<Longrightarrow> P (xs ! i) \<Longrightarrow> (\<forall>j<i. \<not> P (xs ! j)) \<Longrightarrow> first_index P xs = Some i"
proof -
  assume a: "i < length xs" "P (xs ! i)" "\<forall>j<i. \<not> P (xs ! j)"
  then have "first_index P xs \<noteq> None"
    by (auto simp: first_index_None)
  then obtain k where k: "first_index P xs = Some k" by auto
  from first_index_Some[OF k] a have "k = i"
    by (meson linorder_neqE_nat)
  with k show ?thesis by simp
qed

lemma where_first_Inr:
  "where_first ys y = Inr i \<longleftrightarrow> i < length ys \<and> y \<le> ys ! i \<and> (\<forall>j<i. ys ! j < y)"
proof
  assume "where_first ys y = Inr i"
  then have "first_index (\<lambda>v. v \<ge> y) ys = Some i"
    by (auto simp: where_first_def split: option.splits)
  from first_index_Some[OF this] show "i < length ys \<and> y \<le> ys ! i \<and> (\<forall>j<i. ys ! j < y)"
    by (auto simp: not_le)
next
  assume "i < length ys \<and> y \<le> ys ! i \<and> (\<forall>j<i. ys ! j < y)"
  then have "first_index (\<lambda>v. v \<ge> y) ys = Some i"
    by (intro first_index_eqI) auto
  then show "where_first ys y = Inr i" by (simp add: where_first_def)
qed

lemma where_first_Inl:
  "where_first ys y = Inl e \<longleftrightarrow> e = IndexError \<and> (\<forall>v\<in>set ys. v < y)"
proof (cases "first_index (\<lambda>v. v \<ge> y) ys")
  case None
  then show ?thesis
    using first_index_None[of "\<lambda>v. v \<ge> y" ys] by (auto simp: where_first_def not_le)
next
  case (Some i)
  then have "\<not> (\<forall>v\<in>set ys. \<not> v \<ge> y)"
    using first_index_None[of "\<lambda>v. v \<ge> y" ys] by simp
  with Some show ?thesis by (auto simp: where_first_def not_le)
qed

lemma where_first_exists:
  "v \<in> set ys \<Longrightarrow> y \<le> v \<Longrightarrow> \<exists>i. where_first ys y = Inr i"
  by (cases "where_first ys y") (auto simp: where_first_Inl)

lemma take_below:
  assumes "where_first ys y = Inr k" "v \<in> set (take k ys)"
  shows "v < y"
proof -
  from assms(2) obtain j where j: "j < length (take k ys)" "v = take k ys ! j"
    by (auto simp: in_set_conv_nth)
  then have "j < k" by simp
  with assms(1) j show ?thesis by (simp add: where_first_Inr)
qed

lemma grid_eq:
  "expand_fit_space m = map (\<lambda>i. real i * (real_of_int (py_int (m * 100)) / 499)) [0..<500]"
  by (simp add: expand_fit_space_def linspace_def)

lemma grid_length: "length (expand_fit_space m) = 500"
  by (simp add: grid_eq)

lemma grid_nth:
  "i < 500 \<Longrightarrow> expand_fit_space m ! i = real i * (real_of_int (py_int (m * 100)) / 499)"
  by (simp add: grid_eq)

lemma grid_mono:
  assumes "0 \<le> m" "i \<le> j" "j < 500"
  shows "expand_fit_space m ! i \<le> expand_fit_space m ! j"
proof -
  have "0 \<le> real_of_int (py_int (m * 100))"
    using assms(1) by (simp add: py_int_def)
  then show ?thesis
    using assms(2,3) by (simp add: grid_nth mult_right_mono)
qed

lemma MM_pos:
  "0 < Vmax \<Longrightarrow> 0 < Km \<Longrightarrow> MM x Vmax Km = Array (map (\<lambda>v. Vmax * v / (Km + v)) x)"
  by (simp add: MM_def)

lemma dense_length: "length (dense_grid x_data) = 500" "length (dense_curve Vmax Km x_data) = 500"
  by (simp_all add: dense_grid_def dense_curve_def grid_length)

lemma dense_curve_nth:
  "i < 500 \<Longrightarrow> dense_curve Vmax Km x_data ! i =
     Vmax * (dense_grid x_data ! i) / (Km + dense_grid x_data ! i)"
  by (simp add: dense_curve_def dense_length)

lemma cut_nth:
  assumes "k \<le> 500" "i < k"
  shows "take k (dense_grid x_data) ! i = dense_grid x_data ! i"
    and "take k (dense_curve Vmax Km x_data) ! i =
           Vmax * (dense_grid x_data ! i) / (Km + dense_grid x_data ! i)"
  using assms by (simp_all add: dense_curve_nth)

subsection \<open>The cut\<close>

lemma subset_fit_cases:
  assumes "ys \<noteq> []"
  shows "\<exists>k. subset_fit Vmax xs ys = Inr (take k xs, take k ys)
      \<and> (Vmax * (95 / 100) < Max (set ys) \<longrightarrow> where_first ys (Vmax * (95 / 100)) = Inr k)
      \<and> (Max (set ys) \<le> Vmax * (95 / 100) \<longrightarrow> k = max (length xs) (length ys))"
proof (cases "Vmax * (95 / 100) < Max (set ys)")
  case True
  have "Max (set ys) \<in> set ys" using assms by (intro Max_in) auto
  with True obtain k where k: "where_first ys (Vmax * (95 / 100)) = Inr k"
    using where_first_exists[of "Max (set ys)" ys "Vmax * (95 / 100)"] by auto
  with True assms show ?thesis
    by (auto simp: subset_fit_def py_max_Max and_then_def)
next
  case False
  with assms show ?thesis
    by (intro exI[of _ "max (length xs) (length ys)"])
       (auto simp: subset_fit_def py_max_Max and_then_def)
qed

lemma fitted_curve_Inr:
  assumes "fitted_curve Vmax Km x_data = Inr c"
  shows "0 < Vmax \<and> 0 < Km \<and> x_data \<noteq> []"
proof -
  have "x_data \<noteq> []"
    using assms by (auto simp: fitted_curve_def py_max_Nil and_then_def)
  moreover have "0 < Vmax \<and> 0 < Km"
    using assms \<open>x_data \<noteq> []\<close>
    by (auto simp: fitted_curve_def py_max_Max and_then_def MM_def Let_def split: if_splits)
  ultimately show ?thesis by simp
qed

lemma fitted_curve_cases:
  assumes "0 < Vmax" "0 < Km" "x_data \<noteq> []"
  shows "\<exists>k\<le>500. fitted_curve Vmax Km x_data =
        Inr (take k (expand_fit_space (Max (set x_data))),
             take k (map (\<lambda>v. Vmax * v / (Km + v)) (expand_fit_space (Max (set x_data)))))
      \<and> (Vmax * (95 / 100) <
           Max (set (map (\<lambda>v. Vmax * v / (Km + v)) (expand_fit_space (Max (set x_data)))))
         \<longrightarrow> where_first (map (\<lambda>v. Vmax * v / (Km + v)) (expand_fit_space (Max (set x_data))))
               (Vmax * (95 / 100)) = Inr k)
      \<and> (Max (set (map (\<lambda>v. Vmax * v / (Km + v)) (expand_fit_space (Max (set x_data)))))
           \<le> Vmax * (95 / 100) \<longrightarrow> k = 500)"
proof -
  let ?grid = "expand_fit_space (Max (set x_data))"
  let ?ys = "map (\<lambda>v. Vmax * v / (Km + v)) ?grid"
  have ne: "?ys \<noteq> []" using grid_length[of "Max (set x_data)"] by auto
  from subset_fit_cases[OF ne, of Vmax ?grid] obtain k where
    k: "subset_fit Vmax ?grid ?ys = Inr (take k ?grid, take k ?ys)"
       "Vmax * (95 / 100) < Max (set ?ys) \<longrightarrow> where_first ?ys (Vmax * (95 / 100)) = Inr k"
       "Max (set ?ys) \<le> Vmax * (95 / 100) \<longrightarrow> k = max (length ?grid) (length ?ys)"
    by blast
  have fc: "fitted_curve Vmax Km x_data = Inr (take k ?grid, take k ?ys)"
    using assms k(1) by (simp add: fitted_curve_def py_max_Max and_then_def MM_pos Let_def)
  have "k \<le> 500"
  proof (cases "Vmax * (95 / 100) < Max (set ?ys)")
    case True
    with k(2) have "where_first ?ys (Vmax * (95 / 100)) = Inr k" by simp
    then have "k < length ?ys" by (simp add: where_first_Inr)
    then show ?thesis by (simp add: grid_length)
  next
    case False
    with k(3) show ?thesis by (simp add: grid_length)
  qed
  moreover have "Max (set ?ys) \<le> Vmax * (95 / 100) \<longrightarrow> k = 500"
    using k(3) by (simp add: grid_length)
  ultimately show ?thesis using fc k(2) by blast
qed

lemma fitted_curve_dense:
  assumes "0 < Vmax" "0 < Km" "x_data \<noteq> []"
  shows "\<exists>k\<le>500. fitted_curve Vmax Km x_data =
        Inr (take k (dense_grid x_data), take k (dense_curve Vmax Km x_data))
      \<and> (Vmax * (95 / 100) < Max (set (dense_curve Vmax Km x_data))
         \<longrightarrow> where_first (dense_curve Vmax Km x_data) (Vmax * (95 / 100)) = Inr k)
      \<and> (Max (set (dense_curve Vmax Km x_data)) \<le> Vmax * (95 / 100) \<longrightarrow> k = 500)"
  using fitted_curve_cases[OF assms] by (simp add: dense_grid_def dense_curve_def)

lemma fitted_curve_values:
  assumes "fitted_curve Vmax Km x_data = Inr (xf, yf)"
  shows "length xf = length yf" and "length yf \<le> 500"
    and "\<forall>v\<in>set yf. v \<le> Vmax * (95 / 100)"
    and "length yf < 500 \<Longrightarrow> \<forall>v\<in>set yf. v < Vmax * (95 / 100)"
proof -
  let ?ys = "dense_curve Vmax Km x_data"
  from fitted_curve_Inr[OF assms] have p: "0 < Vmax" "0 < Km" "x_data \<noteq> []" by simp_all
  from fitted_curve_dense[OF p] assms obtain k where k: "k \<le> 500"
    "xf = take k (dense_grid x_data)" "yf = take k ?ys"
    "Vmax * (95 / 100) < Max (set ?ys) \<longrightarrow> where_first ?ys (Vmax * (95 / 100)) = Inr k"
    "Max (set ?ys) \<le> Vmax * (95 / 100) \<longrightarrow> k = 500"
    by auto
  show "length xf = length yf" "length yf \<le> 500"
    using k(1-3) by (simp_all add: dense_length)
  have cut: "\<forall>v\<in>set yf. v < Vmax * (95 / 100)" if "Vmax * (95 / 100) < Max (set ?ys)"
    using k(4) that take_below[of ?ys "Vmax * (95 / 100)" k] k(3) by blast
  have whole: "\<forall>v\<in>set yf. v \<le> Vmax * (95 / 100) \<and> length yf = 500"
    if "Max (set ?ys) \<le> Vmax * (95 / 100)"
  proof
    fix v assume "v \<in> set yf"
    with k(3) have "v \<in> set ?ys" by (meson in_set_takeD)
    then have "v \<le> Max (set ?ys)" by simp
    with that k(5) k(3) show "v \<le> Vmax * (95 / 100) \<and> length yf = 500"
      by (simp add: dense_length)
  qed
  show "\<forall>v\<in>set yf. v \<le> Vmax * (95 / 100)"
    using cut whole by (cases "Vmax * (95 / 100) < Max (set ?ys)") (auto simp: not_less less_imp_le)
  show "\<forall>v\<in>set yf. v < Vmax * (95 / 100)" if "length yf < 500"
    using cut whole that by (cases "Vmax * (95 / 100) < Max (set ?ys)") (auto simp: not_less)
qed

subsection \<open>The markers\<close>

lemma marker_Inr:
  assumes "length xf = length yf" "where_first yf y = Inr i"
  shows "marker xf yf y = Inr (xf ! i, yf ! i)"
proof -
  have "i < length yf" using assms(2) by (simp add: where_first_Inr)
  with assms show ?thesis by (simp add: marker_def and_then_def py_nth_def)
qed

lemma marker_Inl: "where_first yf y = Inl e \<Longrightarrow> marker xf yf y = Inl e"
  by (simp add: marker_def and_then_def)

lemma mark_percentages_Inr:
  assumes "yf \<noteq> []" "length xf = length yf"
  shows "\<exists>ms. mark_percentages Vmax xf yf ps = Inr ms
      \<and> map fst ms = filter (\<lambda>p. Vmax * p < Max (set yf)) ps
      \<and> (\<forall>m\<in>set ms. \<exists>i. where_first yf (Vmax * fst m) = Inr i \<and> snd m = (xf ! i, yf ! i))"
proof (induction ps)
  case Nil
  then show ?case by simp
next
  case (Cons p ps)
  then obtain ms where ms: "mark_percentages Vmax xf yf ps = Inr ms"
    "map fst ms = filter (\<lambda>p. Vmax * p < Max (set yf)) ps"
    "\<forall>m\<in>set ms. \<exists>i. where_first yf (Vmax * fst m) = Inr i \<and> snd m = (xf ! i, yf ! i)"
    by blast
  show ?case
  proof (cases "Vmax * p < Max (set yf)")
    case True
    have "Max (set yf) \<in> set yf" using assms(1) by (intro Max_in) auto
    with True obtain i where i: "where_first yf (Vmax * p) = Inr i"
      using where_first_exists[of "Max (set yf)" yf "Vmax * p"] by auto
    have "mark_percentages Vmax xf yf (p # ps) = Inr ((p, xf ! i, yf ! i) # ms)"
      using True assms ms(1) marker_Inr[OF assms(2) i]
      by (simp add: py_max_Max and_then_def)
    with ms(2,3) True i show ?thesis by auto
  next
    case False
    then have "mark_percentages Vmax xf yf (p # ps) = Inr ms"
      using assms ms(1) by (simp add: py_max_Max and_then_def)
    with ms(2,3) False show ?thesis by auto
  qed
qed

lemma fit_MM_steps:
  assumes "fitted_curve Vmax Km x_data = Inr (xf, yf)" "y_data \<noteq> []"
  shows "fit_MM (Inr (Vmax, Km)) x_data y_data ps =
     and_then (marker xf yf (Max (set y_data))) (\<lambda>cur.
     and_then (mark_percentages Vmax xf yf ps) (\<lambda>ms.
       Inr \<lparr>curve_x = xf, curve_y = yf, current = cur, marks = ms\<rparr>))"
  using assms by (simp add: fit_MM_def and_then_def py_max_Max)

lemma fit_MM_Inr:
  assumes "fit_MM (Inr (Vmax, Km)) x_data y_data ps = Inr r"
  shows "fitted_curve Vmax Km x_data = Inr (curve_x r, curve_y r)"
    and "y_data \<noteq> []"
    and "\<exists>i. where_first (curve_y r) (Max (set y_data)) = Inr i
           \<and> current r = (curve_x r ! i, curve_y r ! i)"
    and "mark_percentages Vmax (curve_x r) (curve_y r) ps = Inr (marks r)"
proof -
  from assms obtain xf yf where c: "fitted_curve Vmax Km x_data = Inr (xf, yf)"
    by (cases "fitted_curve Vmax Km x_data") (auto simp: fit_MM_def and_then_def)
  from assms c show ne: "y_data \<noteq> []"
    by (auto simp: fit_MM_def and_then_def py_max_Nil)
  note st = fit_MM_steps[OF c ne, of ps]
  from assms st obtain cur where cur: "marker xf yf (Max (set y_data)) = Inr cur"
    by (cases "marker xf yf (Max (set y_data))") (auto simp: and_then_def)
  from assms st cur obtain ms where ms: "mark_percentages Vmax xf yf ps = Inr ms"
    by (cases "mark_percentages Vmax xf yf ps") (auto simp: and_then_def)
  from assms st cur ms have r: "r = \<lparr>curve_x = xf, curve_y = yf, current = cur, marks = ms\<rparr>"
    by (simp add: and_then_def)
  show "fitted_curve Vmax Km x_data = Inr (curve_x r, curve_y r)" using c r by simp
  show "mark_percentages Vmax (curve_x r) (curve_y r) ps = Inr (marks r)" using ms r by simp
  from cur obtain i where i: "where_first yf (Max (set y_data)) = Inr i"
    by (cases "where_first yf (Max (set y_data))") (auto simp: marker_Inl)
  from marker_Inr[OF fitted_curve_values(1)[OF c] i] cur r i
  show "\<exists>i. where_first (curve_y r) (Max (set y_data)) = Inr i
           \<and> current r = (curve_x r ! i, curve_y r ! i)" by auto
qed

lemma inversion_on_cut:
  assumes k: "k \<le> 500"
    and nn: "0 \<le> Max (set x_data)"
    and i: "where_first (take k (dense_curve Vmax Km x_data)) y = Inr i"
  shows "take k (dense_grid x_data) ! i \<in> set (dense_grid x_data)"
    and "take k (dense_curve Vmax Km x_data) ! i =
           Vmax * (take k (dense_grid x_data) ! i) / (Km + take k (dense_grid x_data) ! i)"
    and "y \<le> take k (dense_curve Vmax Km x_data) ! i"
    and "\<forall>x'\<in>set (dense_grid x_data).
           y \<le> Vmax * x' / (Km + x') \<longrightarrow> take k (dense_grid x_data) ! i \<le> x'"
proof -
  let ?g = "dense_grid x_data" and ?c = "dense_curve Vmax Km x_data"
  from i[unfolded where_first_Inr]
  have w: "i < length (take k ?c)" "y \<le> take k ?c ! i" "\<forall>j<i. take k ?c ! j < y"
    by blast+
  from w(1) k have ik: "i < k" "i < 500" by (simp_all add: dense_length)
  show "take k ?g ! i \<in> set ?g"
    using ik k by (simp add: dense_length)
  show "take k ?c ! i = Vmax * (take k ?g ! i) / (Km + take k ?g ! i)"
    using cut_nth[OF k ik(1)] by simp
  show "y \<le> take k ?c ! i" by (rule w(2))
  show "\<forall>x'\<in>set ?g. y \<le> Vmax * x' / (Km + x') \<longrightarrow> take k ?g ! i \<le> x'"
  proof (intro ballI impI)
    fix x' assume x': "x' \<in> set ?g" "y \<le> Vmax * x' / (Km + x')"
    then obtain j where j: "j < 500" "x' = ?g ! j"
      by (auto simp: in_set_conv_nth dense_length)
    have "\<not> j < i"
    proof
      assume ji: "j < i"
      then have "take k ?c ! j < y" using w(3) by simp
      moreover have "take k ?c ! j = Vmax * x' / (Km + x')"
        using cut_nth(2)[OF k, of j] ji ik(1) j(2) by simp
      ultimately show False using x'(2) by simp
    qed
    then have "i \<le> j" by simp
    then have "?g ! i \<le> ?g ! j"
      unfolding dense_grid_def by (rule grid_mono[OF nn _ j(1)])
    then show "take k ?g ! i \<le> x'"
      using ik k j(2) by simp
  qed
qed

subsection \<open>Two fits\<close>

text \<open>
  Both fits have \<open>Vmax = 1\<close> and \<open>Km = 1\<close>, the point where the solver starts, and
  observations that lie on that curve. The first has depths up to 1: the grid goes to
  100, the curve passes 95 percent at the grid point 95 and is cut there. The second has
  depths up to 0.19: the grid goes to 19, where the curve is exactly 95 percent.
\<close>

lemma ramp_value:
  fixes a b c :: real
  assumes "0 < b" "0 \<le> c"
  shows "(c * real i / (499 + c * real i) < a / b) = (c * real i * b < a * (499 + c * real i))"
proof -
  have pos: "0 < 499 + c * real i" using assms(2) by (simp add: add_pos_nonneg)
  show ?thesis using pos assms(1) by (simp add: field_simps)
qed

lemma ramp_where:
  fixes a b c :: real
  assumes nth: "\<And>j. j < 500 \<Longrightarrow> ys ! j = c * real j / (499 + c * real j)"
    and len: "length ys = 500"
    and c: "0 \<le> c" and b: "0 < b" and ab: "a < b"
    and i: "i < 500" "i < k"
    and at: "a * (499 + c * real i) \<le> c * real i * b"
    and before: "c * (real i - 1) * b < a * (499 + c * (real i - 1))"
  shows "where_first (take k ys) (a / b) = Inr i"
  unfolding where_first_Inr
proof (intro conjI allI impI)
  show "i < length (take k ys)"
    using i len by simp
  show "a / b \<le> take k ys ! i"
    using i at ramp_value[OF b c, of i a] by (simp add: nth not_less[symmetric])
  fix j assume j: "j < i"
  then have j5: "j < 500" using i(1) by simp
  from j have "real j \<le> real i - 1" by (simp add: of_nat_diff)
  then have "real j * (c * (b - a)) \<le> (real i - 1) * (c * (b - a))"
    using ab c by (intro mult_right_mono) simp_all
  with before have "c * real j * b < a * (499 + c * real j)"
    by (simp add: algebra_simps)
  then show "take k ys ! j < a / b"
    using j i(2) ramp_value[OF b c, of j a] by (simp add: nth j5)
qed

lemma exA_grid: "i < 500 \<Longrightarrow> dense_grid [0, 1] ! i = real i * (100 / 499)"
  by (simp add: dense_grid_def grid_nth py_int_def)

lemma exA_curve:
  "i < 500 \<Longrightarrow> dense_curve 1 1 [0, 1] ! i = 100 * real i / (499 + 100 * real i)"
  by (simp add: dense_curve_nth exA_grid field_simps)

lemma exA_where:
  assumes "i < 500" "0 < b"
    and "a * (499 + 100 * real i) \<le> 100 * real i * b"
    and "100 * (real i - 1) * b < a * (499 + 100 * (real i - 1))"
    and "a < b" and "i < k"
  shows "where_first (take k (dense_curve 1 1 [0, 1])) (a / b) = Inr i"
  using assms by (intro ramp_where[where c = 100]) (simp_all add: exA_curve dense_length)

lemma exA_cut: "where_first (dense_curve 1 1 [0, 1]) (95 / 100) = Inr 95"
proof -
  have "take 500 (dense_curve 1 1 [0, 1]) = dense_curve 1 1 [0, 1]"
    by (simp add: dense_length)
  then show ?thesis using exA_where[of 95 100 95 500] by simp
qed

lemma exA_reaches: "95 / 100 < Max (set (dense_curve 1 1 [0, 1]))"
proof -
  have "dense_curve 1 1 [0, 1] ! 499 \<in> set (dense_curve 1 1 [0, 1])"
    by (intro nth_mem) (simp add: dense_length)
  then have "dense_curve 1 1 [0, 1] ! 499 \<le> Max (set (dense_curve 1 1 [0, 1]))"
    by simp
  then show ?thesis by (simp add: exA_curve)
qed

lemma exA_fitted:
  "fitted_curve 1 1 [0, 1] =
     Inr (take 95 (dense_grid [0, 1]), take 95 (dense_curve 1 1 [0, 1]))"
  using fitted_curve_dense[of 1 1 "[0, 1]"] exA_reaches exA_cut by auto

lemma exA_below: "v \<in> set (take 95 (dense_curve 1 1 [0, 1])) \<Longrightarrow> v < 95 / 100"
  using take_below[OF exA_cut] by simp

lemma exA_max_below: "Max (set (take 95 (dense_curve 1 1 [0, 1]))) < 95 / 100"
proof -
  have "take 95 (dense_curve 1 1 [0, 1]) \<noteq> []"
    using dense_length(2)[of 1 1 "[0, 1]"] by auto
  then have "Max (set (take 95 (dense_curve 1 1 [0, 1]))) \<in> set (take 95 (dense_curve 1 1 [0, 1]))"
    by (intro Max_in) auto
  then show ?thesis by (rule exA_below)
qed

lemma exA_max_above: "3 / 10 < Max (set (take 95 (dense_curve 1 1 [0, 1])))"
proof -
  have "take 95 (dense_curve 1 1 [0, 1]) ! 94 \<in> set (take 95 (dense_curve 1 1 [0, 1]))"
    by (intro nth_mem) (simp add: dense_length)
  then have "take 95 (dense_curve 1 1 [0, 1]) ! 94 \<le> Max (set (take 95 (dense_curve 1 1 [0, 1])))"
    by simp
  then show ?thesis by (simp add: exA_curve)
qed

lemma exA_half: "where_first (take 95 (dense_curve 1 1 [0, 1])) (1 / 2) = Inr 5"
  using exA_where[of 5 2 1 95] by simp

lemma exA_30: "where_first (take 95 (dense_curve 1 1 [0, 1])) (3 / 10) = Inr 3"
  using exA_where[of 3 10 3 95] by simp

lemma exA_run0:
  "fit_MM (Inr (1, 1)) [0, 1] [0, 1 / 2] [] =
     Inr \<lparr>curve_x = take 95 (dense_grid [0, 1]), curve_y = take 95 (dense_curve 1 1 [0, 1]),
          current = (500 / 499, 500 / 999), marks = []\<rparr>"
proof -
  have len: "length (take 95 (dense_grid [0, 1])) = length (take 95 (dense_curve 1 1 [0, 1]))"
    by (simp add: dense_length)
  have "marker (take 95 (dense_grid [0, 1])) (take 95 (dense_curve 1 1 [0, 1])) (1 / 2) =
          Inr (500 / 499, 500 / 999)"
    using marker_Inr[OF len exA_half] by (simp add: exA_grid exA_curve)
  then show ?thesis
    using fit_MM_steps[OF exA_fitted, of "[0, 1 / 2]" "[]"] by (simp add: and_then_def)
qed

lemma exA_run:
  "fit_MM (Inr (1, 1)) [0, 1] [0, 1 / 2] [3 / 10, 95 / 100] =
     Inr \<lparr>curve_x = take 95 (dense_grid [0, 1]), curve_y = take 95 (dense_curve 1 1 [0, 1]),
          current = (500 / 499, 500 / 999), marks = [(3 / 10, 300 / 499, 300 / 799)]\<rparr>"
proof -
  let ?xf = "take 95 (dense_grid [0, 1])" and ?yf = "take 95 (dense_curve 1 1 [0, 1])"
  have len: "length ?xf = length ?yf"
    by (simp add: dense_length)
  have ne: "?yf \<noteq> []"
    using dense_length(2)[of 1 1 "[0, 1]"] by auto
  have cur: "marker ?xf ?yf (1 / 2) = Inr (500 / 499, 500 / 999)"
    using marker_Inr[OF len exA_half] by (simp add: exA_grid exA_curve)
  have m30: "marker ?xf ?yf (3 / 10) = Inr (300 / 499, 300 / 799)"
    using marker_Inr[OF len exA_30] by (simp add: exA_grid exA_curve)
  have "mark_percentages 1 ?xf ?yf [3 / 10, 95 / 100] = Inr [(3 / 10, 300 / 499, 300 / 799)]"
    using exA_max_below exA_max_above m30 ne by (simp add: and_then_def py_max_Max)
  then show ?thesis
    using fit_MM_steps[OF exA_fitted, of "[0, 1 / 2]" "[3 / 10, 95 / 100]"] cur
    by (simp add: and_then_def)
qed

lemma exE_grid: "i < 500 \<Longrightarrow> dense_grid [0, 19 / 100] ! i = real i * (19 / 499)"
  by (simp add: dense_grid_def grid_nth py_int_def)

lemma exE_curve:
  "i < 500 \<Longrightarrow> dense_curve 1 1 [0, 19 / 100] ! i = 19 * real i / (499 + 19 * real i)"
proof -
  assume i: "i < 500"
  have pos: "0 < 499 + 19 * real i" by (simp add: add_pos_nonneg)
  show ?thesis
    using pos by (simp add: dense_curve_nth exE_grid i field_simps)
qed

lemma exE_where:
  assumes "i < 500" "0 < b"
    and "a * (499 + 19 * real i) \<le> 19 * real i * b"
    and "19 * (real i - 1) * b < a * (499 + 19 * (real i - 1))"
    and "a < b" and "i < k"
  shows "where_first (take k (dense_curve 1 1 [0, 19 / 100])) (a / b) = Inr i"
  using assms by (intro ramp_where[where c = 19]) (simp_all add: exE_curve dense_length)

lemma exE_whole: "take 500 (dense_curve 1 1 [0, 19 / 100]) = dense_curve 1 1 [0, 19 / 100]"
  "take 500 (dense_grid [0, 19 / 100]) = dense_grid [0, 19 / 100]"
  by (simp_all add: dense_length)

lemma exE_reach: "where_first (dense_curve 1 1 [0, 19 / 100]) (95 / 100) = Inr 499"
  using exE_where[of 499 100 95 500] by (simp add: exE_whole)

lemma exE_half: "where_first (dense_curve 1 1 [0, 19 / 100]) (19 / 119) = Inr 5"
  using exE_where[of 5 119 19 500] by (simp add: exE_whole)

lemma exE_p: "where_first (dense_curve 1 1 [0, 19 / 100]) (94995 / 100000) = Inr 499"
  using exE_where[of 499 100000 94995 500] by (simp add: exE_whole)

lemma exE_max: "Max (set (dense_curve 1 1 [0, 19 / 100])) = 95 / 100"
proof (rule Max_eqI)
  show "finite (set (dense_curve 1 1 [0, 19 / 100]))" by simp
  show "y \<le> 95 / 100" if "y \<in> set (dense_curve 1 1 [0, 19 / 100])" for y
  proof -
    from that obtain j where j: "j < 500" "y = dense_curve 1 1 [0, 19 / 100] ! j"
      by (auto simp: in_set_conv_nth dense_length)
    have "real j \<le> 499" using j(1) by simp
    moreover have "0 < 499 + 19 * real j" by (simp add: add_pos_nonneg)
    ultimately show ?thesis
      unfolding j(2) exE_curve[OF j(1)] by (simp add: field_simps)
  qed
  have "dense_curve 1 1 [0, 19 / 100] ! 499 \<in> set (dense_curve 1 1 [0, 19 / 100])"
    by (intro nth_mem) (simp add: dense_length)
  then show "95 / 100 \<in> set (dense_curve 1 1 [0, 19 / 100])"
    by (simp add: exE_curve)
qed

lemma exE_fitted:
  "fitted_curve 1 1 [0, 19 / 100] = Inr (dense_grid [0, 19 / 100], dense_curve 1 1 [0, 19 / 100])"
  using fitted_curve_dense[of 1 1 "[0, 19 / 100]"] exE_max by (auto simp: exE_whole)

subsection \<open>The cut at 95 percent\<close>

text \<open>
  C9, as the code has it. For positive parameters the curve that is drawn and inverted
  is a prefix of the dense grid. When the dense curve exceeds \<open>0.95 * Vmax\<close> somewhere,
  the prefix ends just before the first grid point at or above \<open>0.95 * Vmax\<close>; when it
  does not exceed it, the whole grid is kept. In a run that returns, every percentage
  that is resolved has \<open>Vmax * p\<close> strictly below the maximum of that prefix and is
  below 0.95: a percentage at or above the maximum, and so any \<open>p \<ge> 0.95\<close>, is never
  resolved, whatever the dense grid reaches.
\<close>

theorem curve_cut_at_95_percent:
  assumes "0 < Vmax" "0 < Km" "x_data \<noteq> []"
  shows "\<exists>k\<le>500. fitted_curve Vmax Km x_data =
        Inr (take k (dense_grid x_data), take k (dense_curve Vmax Km x_data))
      \<and> (Vmax * (95 / 100) < Max (set (dense_curve Vmax Km x_data))
         \<longrightarrow> where_first (dense_curve Vmax Km x_data) (Vmax * (95 / 100)) = Inr k)
      \<and> (Max (set (dense_curve Vmax Km x_data)) \<le> Vmax * (95 / 100) \<longrightarrow> k = 500)
      \<and> (\<forall>r. fit_MM (Inr (Vmax, Km)) x_data y_data ps = Inr r \<longrightarrow>
            curve_x r = take k (dense_grid x_data) \<and>
            curve_y r = take k (dense_curve Vmax Km x_data) \<and>
            (\<forall>m\<in>set (marks r). Vmax * fst m < Max (set (curve_y r)) \<and> fst m < 95 / 100))"
proof -
  from fitted_curve_dense[OF assms] obtain k where k: "k \<le> 500"
    "fitted_curve Vmax Km x_data =
        Inr (take k (dense_grid x_data), take k (dense_curve Vmax Km x_data))"
    "Vmax * (95 / 100) < Max (set (dense_curve Vmax Km x_data))
         \<longrightarrow> where_first (dense_curve Vmax Km x_data) (Vmax * (95 / 100)) = Inr k"
    "Max (set (dense_curve Vmax Km x_data)) \<le> Vmax * (95 / 100) \<longrightarrow> k = 500"
    by blast
  have "curve_x r = take k (dense_grid x_data) \<and>
        curve_y r = take k (dense_curve Vmax Km x_data) \<and>
        (\<forall>m\<in>set (marks r). Vmax * fst m < Max (set (curve_y r)) \<and> fst m < 95 / 100)"
    if run: "fit_MM (Inr (Vmax, Km)) x_data y_data ps = Inr r" for r
  proof -
    note f = fit_MM_Inr[OF run]
    from f(1) k(2) have c: "curve_x r = take k (dense_grid x_data)"
      "curve_y r = take k (dense_curve Vmax Km x_data)" by simp_all
    from f(3) have ne: "curve_y r \<noteq> []" by (auto simp: where_first_Inr)
    note v = fitted_curve_values[OF f(1)]
    from mark_percentages_Inr[OF ne v(1), of Vmax ps] f(4)
    have fm: "map fst (marks r) = filter (\<lambda>p. Vmax * p < Max (set (curve_y r))) ps"
      by auto
    have "Vmax * fst m < Max (set (curve_y r)) \<and> fst m < 95 / 100"
      if "m \<in> set (marks r)" for m
    proof -
      from that have "fst m \<in> set (map fst (marks r))" by simp
      then have lt: "Vmax * fst m < Max (set (curve_y r))" unfolding fm by simp
      have "Max (set (curve_y r)) \<in> set (curve_y r)" using ne by (intro Max_in) auto
      with v(3) have "Max (set (curve_y r)) \<le> Vmax * (95 / 100)" by blast
      with lt have "Vmax * fst m < Vmax * (95 / 100)" by simp
      with assms(1) have "fst m < 95 / 100" by simp
      with lt show ?thesis by simp
    qed
    with c show ?thesis by blast
  qed
  with k show ?thesis by blast
qed

theorem curve_cut_at_95_percent_witness:
  "fitted_curve 1 1 [0, 1] =
     Inr (take 95 (dense_grid [0, 1]), take 95 (dense_curve 1 1 [0, 1]))
   \<and> where_first (dense_curve 1 1 [0, 1]) (1 * (95 / 100)) = Inr 95
   \<and> fit_MM (Inr (1, 1)) [0, 1] [0, 1 / 2] [3 / 10, 95 / 100] =
       Inr \<lparr>curve_x = take 95 (dense_grid [0, 1]), curve_y = take 95 (dense_curve 1 1 [0, 1]),
            current = (500 / 499, 500 / 999), marks = [(3 / 10, 300 / 499, 300 / 799)]\<rparr>"
proof -
  have p: "(0::real) < 1" "[0, 1] \<noteq> ([]::real list)" by simp_all
  from curve_cut_at_95_percent[OF p(1) p(1) p(2), of "[0, 1 / 2]" "[3 / 10, 95 / 100]"]
  obtain k where k: "k \<le> 500"
    "fitted_curve 1 1 [0, 1] = Inr (take k (dense_grid [0, 1]), take k (dense_curve 1 1 [0, 1]))"
    "1 * (95 / 100) < Max (set (dense_curve 1 1 [0, 1]))
       \<longrightarrow> where_first (dense_curve 1 1 [0, 1]) (1 * (95 / 100)) = Inr k"
    by blast
  from k(3) exA_reaches have w: "where_first (dense_curve 1 1 [0, 1]) (1 * (95 / 100)) = Inr k"
    by simp
  with exA_cut have "k = 95" by simp
  with k(2) w exA_run show ?thesis by (simp only: simp_thms)
qed

text \<open>
  C9, as it is stated, fails on the second fit. The curve reaches \<open>0.95 * Vmax\<close> first
  at the last grid point, 499, and the grid is not cut to the 499 points before it: all
  500 points are kept. The percentage 0.94995, which is above every value of those 499
  points, is resolved, at the depth 19.
\<close>

theorem uncut_curve_reaching_95_percent:
  "where_first (dense_curve 1 1 [0, 19 / 100]) (1 * (95 / 100)) = Inr 499
   \<and> fitted_curve 1 1 [0, 19 / 100] =
       Inr (dense_grid [0, 19 / 100], dense_curve 1 1 [0, 19 / 100])
   \<and> length (dense_grid [0, 19 / 100]) = 500
   \<and> list_all (\<lambda>v. v < 1 * (94995 / 100000)) (take 499 (dense_curve 1 1 [0, 19 / 100]))
   \<and> fit_MM (Inr (1, 1)) [0, 19 / 100] [0, 19 / 119] [94995 / 100000] =
       Inr \<lparr>curve_x = dense_grid [0, 19 / 100], curve_y = dense_curve 1 1 [0, 19 / 100],
            current = (95 / 499, 95 / 594),
            marks = [(94995 / 100000, 19, 95 / 100)]\<rparr>"
proof -
  let ?xf = "dense_grid [0, 19 / 100]" and ?yf = "dense_curve 1 1 [0, 19 / 100]"
  have len: "length ?xf = length ?yf" by (simp add: dense_length)
  have ne: "?yf \<noteq> []" using dense_length(2)[of 1 1 "[0, 19 / 100]"] by auto
  have cur: "marker ?xf ?yf (19 / 119) = Inr (95 / 499, 95 / 594)"
    using marker_Inr[OF len exE_half] by (simp add: exE_grid exE_curve)
  have mp: "marker ?xf ?yf (94995 / 100000) = Inr (19, 95 / 100)"
    using marker_Inr[OF len exE_p] by (simp add: exE_grid exE_curve)
  have "mark_percentages 1 ?xf ?yf [94995 / 100000] = Inr [(94995 / 100000, 19, 95 / 100)]"
    using mp ne by (simp add: and_then_def py_max_Max exE_max)
  then have run: "fit_MM (Inr (1, 1)) [0, 19 / 100] [0, 19 / 119] [94995 / 100000] =
       Inr \<lparr>curve_x = ?xf, curve_y = ?yf, current = (95 / 499, 95 / 594),
            marks = [(94995 / 100000, 19, 95 / 100)]\<rparr>"
    using fit_MM_steps[OF exE_fitted, of "[0, 19 / 119]" "[94995 / 100000]"] cur
    by (simp add: and_then_def)
  have before: "list_all (\<lambda>v. v < 1 * (94995 / 100000)) (take 499 ?yf)"
    using take_below[OF exE_p] by (simp add: list_all_iff)
  have reach: "where_first ?yf (1 * (95 / 100)) = Inr 499"
    using exE_reach by simp
  from reach exE_fitted before run show ?thesis
    by (simp only: dense_length simp_thms)
qed

subsection \<open>The inversion of a percentage\<close>

text \<open>
  C1, as the code has it. Take a run that returns when no percentage is requested, on
  depths whose maximum is not negative. Then the run returns for every list of
  percentages, with the same curve and the same marker of the current saturation. The
  percentages it resolves are those with \<open>Vmax * p\<close> strictly below the maximum of the
  curve that was cut at 95 percent, in the order requested; every other one is skipped.
  The depth of a resolved percentage is the smallest \<open>x\<close> of the dense grid whose model
  value is at least \<open>Vmax * p\<close>, and it comes with the model value at that \<open>x\<close>.
\<close>

theorem percentage_inversion:
  assumes run: "fit_MM (Inr (Vmax, Km)) x_data y_data [] = Inr r0"
    and nn: "0 \<le> Max (set x_data)"
  shows "\<exists>ms. fit_MM (Inr (Vmax, Km)) x_data y_data ps = Inr (r0\<lparr>marks := ms\<rparr>)
      \<and> map fst ms = filter (\<lambda>p. Vmax * p < Max (set (curve_y r0))) ps
      \<and> (\<forall>(p, x, y)\<in>set ms.
            x \<in> set (dense_grid x_data) \<and> y = Vmax * x / (Km + x) \<and> Vmax * p \<le> y \<and>
            (\<forall>x'\<in>set (dense_grid x_data). Vmax * p \<le> Vmax * x' / (Km + x') \<longrightarrow> x \<le> x'))"
proof -
  let ?xf = "curve_x r0" and ?yf = "curve_y r0"
  note r = fit_MM_Inr[OF run]
  from r(3) obtain i0 where i0: "where_first ?yf (Max (set y_data)) = Inr i0"
    "current r0 = (?xf ! i0, ?yf ! i0)" by blast
  from i0(1) have ne: "?yf \<noteq> []" by (auto simp: where_first_Inr)
  note len = fitted_curve_values(1)[OF r(1)]
  from fitted_curve_Inr[OF r(1)] have p: "0 < Vmax" "0 < Km" "x_data \<noteq> []" by simp_all
  from fitted_curve_dense[OF p] r(1) obtain k where k: "k \<le> 500"
    "?xf = take k (dense_grid x_data)" "?yf = take k (dense_curve Vmax Km x_data)"
    by auto
  from mark_percentages_Inr[OF ne len, of Vmax ps] obtain ms where
    ms: "mark_percentages Vmax ?xf ?yf ps = Inr ms"
        "map fst ms = filter (\<lambda>p. Vmax * p < Max (set ?yf)) ps"
        "\<forall>m\<in>set ms. \<exists>i. where_first ?yf (Vmax * fst m) = Inr i \<and> snd m = (?xf ! i, ?yf ! i)"
    by blast
  from r(4) have m0: "marks r0 = []" by simp
  have "fit_MM (Inr (Vmax, Km)) x_data y_data ps =
          Inr \<lparr>curve_x = ?xf, curve_y = ?yf, current = current r0, marks = ms\<rparr>"
    using fit_MM_steps[OF r(1) r(2), of ps] marker_Inr[OF len i0(1)] i0(2) ms(1)
    by (simp add: and_then_def)
  then have res: "fit_MM (Inr (Vmax, Km)) x_data y_data ps = Inr (r0\<lparr>marks := ms\<rparr>)"
    by simp
  have each: "x \<in> set (dense_grid x_data) \<and> y = Vmax * x / (Km + x) \<and> Vmax * p \<le> y \<and>
      (\<forall>x'\<in>set (dense_grid x_data). Vmax * p \<le> Vmax * x' / (Km + x') \<longrightarrow> x \<le> x')"
    if "(p, x, y) \<in> set ms" for p x y
  proof -
    from ms(3) that obtain i where i: "where_first ?yf (Vmax * p) = Inr i"
      "x = ?xf ! i" "y = ?yf ! i" by fastforce
    from inversion_on_cut[OF k(1) nn i(1)[unfolded k(3)]] i(2,3) k(2,3)
    show ?thesis by simp
  qed
  from res ms(2) each show ?thesis by blast
qed

theorem percentage_inversion_witness:
  "fit_MM (Inr (1, 1)) [0, 1] [0, 1 / 2] [3 / 10, 95 / 100] =
     Inr \<lparr>curve_x = take 95 (dense_grid [0, 1]), curve_y = take 95 (dense_curve 1 1 [0, 1]),
          current = (500 / 499, 500 / 999), marks = [(3 / 10, 300 / 499, 300 / 799)]\<rparr>"
proof -
  have nn: "(0::real) \<le> Max (set [0, 1])" by simp
  from percentage_inversion[OF exA_run0 nn, of "[3 / 10, 95 / 100]"] obtain ms where
    run: "fit_MM (Inr (1, 1)) [0, 1] [0, 1 / 2] [3 / 10, 95 / 100] =
       Inr \<lparr>curve_x = take 95 (dense_grid [0, 1]), curve_y = take 95 (dense_curve 1 1 [0, 1]),
          current = (500 / 499, 500 / 999), marks = ms\<rparr>"
    and fm: "map fst ms =
       filter (\<lambda>p. 1 * p < Max (set (take 95 (dense_curve 1 1 [0, 1])))) [3 / 10, 95 / 100]"
    and each: "\<forall>(p, x, y)\<in>set ms.
       x \<in> set (dense_grid [0, 1]) \<and> y = 1 * x / (1 + x) \<and> 1 * p \<le> y \<and>
       (\<forall>x'\<in>set (dense_grid [0, 1]). 1 * p \<le> 1 * x' / (1 + x') \<longrightarrow> x \<le> x')"
    by auto
  from fm exA_max_below exA_max_above have "map fst ms = [3 / 10]" by simp
  then obtain x y where ms: "ms = [(3 / 10, x, y)]" by auto
  from each ms have x: "x \<in> set (dense_grid [0, 1])" "y = x / (1 + x)" "3 / 10 \<le> y"
    "\<forall>x'\<in>set (dense_grid [0, 1]). 3 / 10 \<le> x' / (1 + x') \<longrightarrow> x \<le> x'"
    by auto
  have "dense_grid [0, 1] ! 3 \<in> set (dense_grid [0, 1])"
    by (intro nth_mem) (simp add: dense_length)
  then have g3: "300 / 499 \<in> set (dense_grid [0, 1])" by (simp add: exA_grid)
  with x(4) have le: "x \<le> 300 / 499" by auto
  from x(1) obtain j where j: "j < 500" "x = real j * (100 / 499)"
    by (auto simp: in_set_conv_nth dense_length exA_grid)
  have "\<not> j < 3"
  proof
    assume "j < 3"
    then have "j = 0 \<or> j = 1 \<or> j = 2" by auto
    with x(2,3) j(2) show False by auto
  qed
  with le j(2) have "x = 300 / 499" by simp
  with x(2) ms run show ?thesis by simp
qed

text \<open>
  C1, as it is stated, fails on the first fit for the percentage 0.95: the dense grid has
  the point 100 where the model value 100/101 is at least \<open>0.95 * Vmax\<close>, yet the
  percentage is skipped, because the inversion only sees the curve cut below 95 percent.
\<close>

theorem inversion_misses_95_percent:
  "fit_MM (Inr (1, 1)) [0, 1] [0, 1 / 2] [95 / 100] =
     Inr \<lparr>curve_x = take 95 (dense_grid [0, 1]), curve_y = take 95 (dense_curve 1 1 [0, 1]),
          current = (500 / 499, 500 / 999), marks = []\<rparr>
   \<and> dense_grid [0, 1] ! 499 = 100
   \<and> MM [dense_grid [0, 1] ! 499] 1 1 = Array [100 / 101]
   \<and> (1::real) * (95 / 100) \<le> 100 / 101"
proof -
  have len: "length (take 95 (dense_grid [0, 1])) = length (take 95 (dense_curve 1 1 [0, 1]))"
    by (simp add: dense_length)
  have "marker (take 95 (dense_grid [0, 1])) (take 95 (dense_curve 1 1 [0, 1])) (1 / 2) =
          Inr (500 / 499, 500 / 999)"
    using marker_Inr[OF len exA_half] by (simp add: exA_grid exA_curve)
  moreover have "take 95 (dense_curve 1 1 [0, 1]) \<noteq> []"
    using dense_length(2)[of 1 1 "[0, 1]"] by auto
  ultimately have "fit_MM (Inr (1, 1)) [0, 1] [0, 1 / 2] [95 / 100] =
     Inr \<lparr>curve_x = take 95 (dense_grid [0, 1]), curve_y = take 95 (dense_curve 1 1 [0, 1]),
          current = (500 / 499, 500 / 999), marks = []\<rparr>"
    using fit_MM_steps[OF exA_fitted, of "[0, 1 / 2]" "[95 / 100]"] exA_max_below
    by (simp add: and_then_def py_max_Max)
  then show ?thesis by (simp add: exA_grid MM_def)
qed

subsection \<open>The marker of the current saturation\<close>



end
